theory Spec2Isabelle
  imports
    Main
    "HOL-Library.Sublist"
    "HOL-Library.Multiset"
    "HOL-Library.Char_ord"
    "HOL-Library.List_Lexorder"
    "HOL-Library.Product_Lexorder"
begin

section \<open>The e2e test package: command-line flags\<close>

text \<open>
  Go's \<^verbatim>\<open>flag.Bool(name, value, usage)\<close> allocates a bool holding the default,
  registers it under \<open>name\<close> and returns a pointer to it; \<^verbatim>\<open>flag.Parse\<close> later
  writes the command line's values through those pointers. The storage of the registered
  flags is a map from the flag's name to its current value, and a pointer returned by
  \<^verbatim>\<open>flag.Bool\<close> is the key of its cell.
\<close>

type_synonym flagset = "string \<rightharpoonup> bool"
type_synonym bool_ptr = string

definition flag_Bool :: "string \<Rightarrow> bool \<Rightarrow> flagset \<Rightarrow> bool_ptr \<times> flagset" where
  "flag_Bool name val fs = (name, fs(name \<mapsto> val))"

text \<open>Reading through a pointer. A pointer made by \<open>flag_Bool\<close> always has a cell.\<close>

definition deref :: "flagset \<Rightarrow> bool_ptr \<Rightarrow> bool" where
  "deref fs p = (case fs p of Some b \<Rightarrow> b | None \<Rightarrow> False)"

text \<open>
  The package-level variables of the e2e package (lines 36 and 39 of the test file):
  \<^verbatim>\<open>var parallel = *flag.Bool("parallel", false, "run tests in parallel")\<close> is a bool,
  the value read through the pointer when the variable is initialised;
  \<^verbatim>\<open>var pvc = flag.Bool("pvc", false, "run pvc test")\<close> is the pointer itself.
\<close>

record package_e2e =
  flags :: flagset
  parallel :: bool
  pvc :: bool_ptr

text \<open>
  The testing package registers its own flags before the test package is initialised;
  \<^verbatim>\<open>testing.Short()\<close> reads \<^verbatim>\<open>-test.short\<close>.
\<close>

definition testing_init :: flagset where
  "testing_init = Map.empty(''test.short'' \<mapsto> False)"

text \<open>Package initialisation: the two variable initialisers, in declaration order.\<close>

definition package_init :: package_e2e where
  "package_init =
     (let (p1, fs1) = flag_Bool ''parallel'' False testing_init;
          parallel_val = deref fs1 p1;
          (p2, fs2) = flag_Bool ''pvc'' False fs1
      in \<lparr>flags = fs2, parallel = parallel_val, pvc = p2\<rparr>)"

text \<open>
  \<^verbatim>\<open>flag.Parse\<close>, run by the test binary's main after package initialisation. The
  command line is a list of (flag name, value) pairs. A flag that is not registered makes
  the binary exit (\<open>None\<close>). Only the flags' cells are written: the package variables
  keep what their initialisers gave them.
\<close>

fun flag_Parse :: "(string \<times> bool) list \<Rightarrow> package_e2e \<Rightarrow> package_e2e option" where
  "flag_Parse [] pk = Some pk"
| "flag_Parse ((name, val) # args) pk =
     (if name \<in> dom (flags pk)
      then flag_Parse args (pk\<lparr>flags := (flags pk)(name \<mapsto> val)\<rparr>)
      else None)"

definition testing_Short :: "package_e2e \<Rightarrow> bool" where
  "testing_Short pk = deref (flags pk) ''test.short''"

section \<open>The cluster builder\<close>

text \<open>
  Modelled from the spec: the builder of package testutil (\<^verbatim>\<open>NewBuilder\<close>,
  \<^verbatim>\<open>WithNodeCount\<close>, \<^verbatim>\<open>WithTLS\<close>, \<^verbatim>\<open>WithImage\<close>, \<^verbatim>\<open>WithPVDataStore\<close>, \<^verbatim>\<open>Cr\<close>) is
  not among the source files. The spec (4.3) describes it as pure data assembly: a base
  name and chained options for node count, security mode (insecure by default, or TLS
  enabled), image reference, and storage capacity with storage class. An option that has
  not been configured is \<open>None\<close>.
\<close>

record builder =
  cr_name :: string
  node_count :: "int option"
  tls_enabled :: bool
  image_ref :: "string option"
  pv_data_store :: "(string \<times> string) option"

definition NewBuilder :: "string \<Rightarrow> builder" where
  "NewBuilder n =
     \<lparr>cr_name = n, node_count = None, tls_enabled = False, image_ref = None,
      pv_data_store = None\<rparr>"

definition WithNodeCount :: "int \<Rightarrow> builder \<Rightarrow> builder" where
  "WithNodeCount c b = b\<lparr>node_count := Some c\<rparr>"

definition WithTLS :: "builder \<Rightarrow> builder" where
  "WithTLS b = b\<lparr>tls_enabled := True\<rparr>"

definition WithImage :: "string \<Rightarrow> builder \<Rightarrow> builder" where
  "WithImage i b = b\<lparr>image_ref := Some i\<rparr>"

definition WithPVDataStore :: "string \<Rightarrow> string \<Rightarrow> builder \<Rightarrow> builder" where
  "WithPVDataStore capacity storage_class b = b\<lparr>pv_data_store := Some (capacity, storage_class)\<rparr>"

text \<open>The resource specification the builder materialises carries the builder's fields.\<close>

definition Cr :: "builder \<Rightarrow> builder" where
  "Cr b = b"

section \<open>Test bodies as traces of calls\<close>

text \<open>
  The environment, the sandbox and the assertion helpers are external collaborators. A
  test is modelled by the sequence of calls it makes on them and by its result. The
  handles the collaborators return are symbolic: \<open>ActiveEnvForTest\<close> is what
  \<^verbatim>\<open>testenv.CreateActiveEnvForTest()\<close> returns, \<open>Started e\<close> what \<^verbatim>\<open>e.Start()\<close>
  returns, \<open>DiffingSandbox t env\<close> what \<^verbatim>\<open>testenv.NewDiffingSandbox(t, env)\<close> returns
  for the test named \<open>t\<close>.
\<close>

datatype test_env = ActiveEnvForTest
datatype active_env = Started test_env
datatype sandbox = DiffingSandbox string active_env

text \<open>Durations are \<^verbatim>\<open>time.Duration\<close> values: nanoseconds.\<close>

definition time_Second :: int where
  "time_Second = 1000000000"

datatype event =
    TParallel
  | TSkip string
  | SetActorLog
  | CreateActiveEnvForTest
  | EnvStart test_env
  | EnvStop test_env
  | NewDiffingSandbox string active_env
  | StartManager sandbox
  | TRun string
  | SbCreate sandbox builder
  | RequireClusterToBeReadyEventuallyTimeout sandbox builder int
  | RequireDatabaseToFunctionInsecure sandbox builder
  | RequireDatabaseToFunction sandbox builder
  | RequireClusterInImagePullBackoff sandbox builder
  | RequireClusterInFailedState sandbox builder
  | TLog string

datatype result = Passed | Failed | Skipped

type_synonym run = "event list \<times> result"

text \<open>
  The rest of a function body is the continuation \<open>k\<close>. An external call \<open>e\<close> either
  returns (\<open>ext e\<close>) and the body goes on, or fails the test where it stands
  (\<^verbatim>\<open>require.NoError\<close>, \<^verbatim>\<open>t.Fatal\<close>: both end the test's goroutine through
  \<^verbatim>\<open>t.FailNow\<close>) and nothing after it in the body runs.
\<close>

definition call :: "(event \<Rightarrow> bool) \<Rightarrow> event \<Rightarrow> run \<Rightarrow> run" where
  "call ext e k = (if ext e then (e # fst k, snd k) else ([e], Failed))"

text \<open>A statement that cannot fail the test: \<^verbatim>\<open>t.Parallel()\<close>, an assignment, \<^verbatim>\<open>t.Log\<close>.\<close>

definition effect :: "event \<Rightarrow> run \<Rightarrow> run" where
  "effect e k = (e # fst k, snd k)"

text \<open>
  \<^verbatim>\<open>defer d\<close>: \<open>d\<close> runs when the rest of the body has ended, whether it returned
  or failed the test (\<^verbatim>\<open>t.FailNow\<close> and \<^verbatim>\<open>t.SkipNow\<close> leave through
  \<^verbatim>\<open>runtime.Goexit\<close>, which runs the deferred calls).
\<close>

definition go_defer :: "event \<Rightarrow> run \<Rightarrow> run" where
  "go_defer d k = (fst k @ [d], snd k)"

text \<open>\<^verbatim>\<open>t.Skip(msg)\<close> ends the test as skipped; nothing after it runs.\<close>

definition t_Skip :: "string \<Rightarrow> run" where
  "t_Skip msg = ([TSkip msg], Skipped)"

text \<open>The end of a function body.\<close>

definition go_return :: run where
  "go_return = ([], Passed)"

text \<open>\<^verbatim>\<open>if c { s }\<close> followed by the rest of the body.\<close>

definition go_if :: "bool \<Rightarrow> (run \<Rightarrow> run) \<Rightarrow> run \<Rightarrow> run" where
  "go_if c s k = (if c then s k else k)"

record step =
  Name :: string
  Test :: run

text \<open>
  Modelled from the spec: \<^verbatim>\<open>testutil.Steps.Run\<close> is not among the source files. The
  spec (4.4) has it execute each step in declared order and fail fast: the first step
  that reports failure halts the remaining sequence and the test is marked failed.
  Then the calling body ends too, so its continuation \<open>k\<close> does not run.
\<close>

fun Steps_Run :: "step list \<Rightarrow> run \<Rightarrow> run" where
  "Steps_Run [] k = k"
| "Steps_Run (s # ss) k =
     (if snd (Test s) = Failed then (TRun (Name s) # fst (Test s), Failed)
      else (TRun (Name s) # fst (Test s) @ fst (Steps_Run ss k), snd (Steps_Run ss k)))"

section \<open>The four e2e tests\<close>

definition TestCreateInsecureCluster :: "package_e2e \<Rightarrow> (event \<Rightarrow> bool) \<Rightarrow> run" where
  "TestCreateInsecureCluster pk ext =
     go_if (parallel pk) (effect TParallel)
     (if testing_Short pk then t_Skip ''skipping test in short mode.'' else
      effect SetActorLog
      (call ext CreateActiveEnvForTest (let e = ActiveEnvForTest in
       call ext (EnvStart e) (let env = Started e in
       go_defer (EnvStop e)
       (call ext (NewDiffingSandbox ''TestCreateInsecureCluster'' env)
          (let sb = DiffingSandbox ''TestCreateInsecureCluster'' env in
       call ext (StartManager sb)
       (let builder = WithPVDataStore ''1Gi'' ''standard''
              (WithImage ''cockroachdb/cockroach:v21.1.6''
                (WithNodeCount 3 (NewBuilder ''crdb'')));
            steps =
              [\<lparr>Name = ''creates 3-node insecure cluster'',
                Test =
                  call ext (SbCreate sb (Cr builder))
                  (call ext (RequireClusterToBeReadyEventuallyTimeout sb builder (500 * time_Second))
                  (call ext (RequireDatabaseToFunctionInsecure sb builder)
                  (effect (TLog ''Done with basic cluster'') go_return)))\<rparr>]
        in Steps_Run steps go_return)))))))"

definition TestCreatesSecureCluster :: "package_e2e \<Rightarrow> (event \<Rightarrow> bool) \<Rightarrow> run" where
  "TestCreatesSecureCluster pk ext =
     go_if (parallel pk) (effect TParallel)
     (if testing_Short pk then t_Skip ''skipping test in short mode.'' else
      effect SetActorLog
      (call ext CreateActiveEnvForTest (let e = ActiveEnvForTest in
       call ext (EnvStart e) (let env = Started e in
       go_defer (EnvStop e)
       (call ext (NewDiffingSandbox ''TestCreatesSecureCluster'' env)
          (let sb = DiffingSandbox ''TestCreatesSecureCluster'' env in
       call ext (StartManager sb)
       (let builder = WithPVDataStore ''1Gi'' ''standard''
              (WithImage ''cockroachdb/cockroach:v20.2.10''
                (WithTLS (WithNodeCount 3 (NewBuilder ''crdb''))));
            steps =
              [\<lparr>Name = ''creates 3-node secure cluster'',
                Test =
                  call ext (SbCreate sb (Cr builder))
                  (call ext (RequireClusterToBeReadyEventuallyTimeout sb builder (500 * time_Second))
                  (call ext (RequireDatabaseToFunction sb builder)
                  (effect (TLog ''Done with basic cluster'') go_return)))\<rparr>]
        in Steps_Run steps go_return)))))))"

definition TestCreateSecureClusterWithInvalidVersion ::
    "package_e2e \<Rightarrow> (event \<Rightarrow> bool) \<Rightarrow> run" where
  "TestCreateSecureClusterWithInvalidVersion pk ext =
     go_if (parallel pk) (effect TParallel)
     (if testing_Short pk then t_Skip ''skipping test in short mode.'' else
      effect SetActorLog
      (call ext CreateActiveEnvForTest (let e = ActiveEnvForTest in
       call ext (EnvStart e) (let env = Started e in
       go_defer (EnvStop e)
       (call ext (NewDiffingSandbox ''TestCreateSecureClusterWithInvalidVersion'' env)
          (let sb = DiffingSandbox ''TestCreateSecureClusterWithInvalidVersion'' env in
       call ext (StartManager sb)
       (let builder = WithPVDataStore ''1Gi'' ''standard''
              (WithImage ''cockroachdb/cockroach:v20.2.555''
                (WithTLS (WithNodeCount 3 (NewBuilder ''crdb''))));
            steps =
              [\<lparr>Name = ''creates 3-node secure cluster with invalid image'',
                Test =
                  call ext (SbCreate sb (Cr builder))
                  (call ext (RequireClusterInImagePullBackoff sb builder)
                  (call ext (RequireClusterInFailedState sb builder)
                  (effect (TLog ''Done with basic invalid cluster'') go_return)))\<rparr>]
        in Steps_Run steps go_return)))))))"

definition TestCreateSecureClusterWithNonCRDBImage ::
    "package_e2e \<Rightarrow> (event \<Rightarrow> bool) \<Rightarrow> run" where
  "TestCreateSecureClusterWithNonCRDBImage pk ext =
     go_if (parallel pk) (effect TParallel)
     (if testing_Short pk then t_Skip ''skipping test in short mode.'' else
      effect SetActorLog
      (call ext CreateActiveEnvForTest (let e = ActiveEnvForTest in
       call ext (EnvStart e) (let env = Started e in
       go_defer (EnvStop e)
       (call ext (NewDiffingSandbox ''TestCreateSecureClusterWithNonCRDBImage'' env)
          (let sb = DiffingSandbox ''TestCreateSecureClusterWithNonCRDBImage'' env in
       call ext (StartManager sb)
       (let builder = WithPVDataStore ''1Gi'' ''standard''
              (WithImage ''nginx:latest''
                (WithTLS (WithNodeCount 3 (NewBuilder ''crdb''))));
            steps =
              [\<lparr>Name = ''creates 3-node secure cluster with invalid image'',
                Test =
                  call ext (SbCreate sb (Cr builder))
                  (call ext (RequireClusterInFailedState sb builder)
                  (effect (TLog ''Done with basic invalid cluster with image other than crdb'')
                     go_return))\<rparr>]
        in Steps_Run steps go_return)))))))"

text \<open>
  The calls a step makes on the sandbox: submitting the resource and the convergence
  assertions.
\<close>

fun sandbox_op :: "event \<Rightarrow> bool" where
  "sandbox_op (SbCreate sb cr) = True"
| "sandbox_op (RequireClusterToBeReadyEventuallyTimeout sb b d) = True"
| "sandbox_op (RequireDatabaseToFunctionInsecure sb b) = True"
| "sandbox_op (RequireDatabaseToFunction sb b) = True"
| "sandbox_op (RequireClusterInImagePullBackoff sb b) = True"
| "sandbox_op (RequireClusterInFailedState sb b) = True"
| "sandbox_op _ = False"

text \<open>
  Modelled from the spec: the test variants specific to persistent volume claims are
  not among the source files; the test file only registers the flag and keeps its pointer
  in \<open>pvc\<close>. The spec (6) has the flag enable those variants: they run when the value
  behind the pointer is true at the time the tests run.
\<close>

definition pvc_variants_run :: "package_e2e \<Rightarrow> bool" where
  "pvc_variants_run pk = deref (flags pk) (pvc pk)"

section \<open>The version catalog script: filtering tags\<close>

text \<open>
  Strings are sequences of characters; one \<open>char\<close> stands for one character of the Go
  string. \<^verbatim>\<open>strings.Split(s, sep)\<close> for a one-character separator: the pieces between
  the separators, one piece more than there are separators. The result is never empty,
  so the last case of the second equation is never taken.
\<close>

fun strings_Split :: "char \<Rightarrow> string \<Rightarrow> string list" where
  "strings_Split c [] = [[]]"
| "strings_Split c (x # xs) =
     (if x = c then [] # strings_Split c xs
      else (case strings_Split c xs of
              piece # pieces \<Rightarrow> (x # piece) # pieces
            | [] \<Rightarrow> [[x]]))"

text \<open>
  The fragment of Go's regular expressions that the script's pattern uses: alternation
  of sequences of literal characters, \<^verbatim>\<open>.\<close> (any character but newline), \<^verbatim>\<open>^\<close>
  (beginning of the text) and \<^verbatim>\<open>$\<close> (end of the text). Alternation binds weakest, so a
  pattern is a list of alternatives and an alternative a list of atoms.
\<close>

datatype atom = Lit char | AnyCharNotNL | BeginText | EndText

type_synonym regex = "atom list list"

definition atom_of :: "char \<Rightarrow> atom" where
  "atom_of c =
     (if c = CHR ''^'' then BeginText
      else if c = CHR ''$'' then EndText
      else if c = CHR ''.'' then AnyCharNotNL
      else Lit c)"

text \<open>Characters with a meaning in a pattern that the fragment does not cover.\<close>

definition outside_fragment :: "char \<Rightarrow> bool" where
  "outside_fragment c = (c \<in> set [CHR 0x5C, CHR ''*'', CHR ''+'', CHR ''?'', CHR ''('', CHR '')'',
                                    CHR ''['', CHR '']'', CHR ''{'', CHR ''}''])"

definition regexp_Compile :: "string \<Rightarrow> regex option" where
  "regexp_Compile pattern =
     (if list_ex outside_fragment pattern then None
      else Some (map (map atom_of) (strings_Split CHR ''|'' pattern)))"

text \<open>
  Matching one alternative at a position: \<open>at_start\<close> tells whether the position is the
  beginning of the text, \<open>s\<close> is the text from the position on.
\<close>

fun match_here :: "atom list \<Rightarrow> bool \<Rightarrow> string \<Rightarrow> bool" where
  "match_here [] at_start s = True"
| "match_here (BeginText # as) at_start s = (at_start \<and> match_here as at_start s)"
| "match_here (EndText # as) at_start s = (s = [] \<and> match_here as at_start s)"
| "match_here (AnyCharNotNL # as) at_start s =
     (case s of [] \<Rightarrow> False | c # cs \<Rightarrow> c \<noteq> CHR 0x0A \<and> match_here as False cs)"
| "match_here (Lit x # as) at_start s =
     (case s of [] \<Rightarrow> False | c # cs \<Rightarrow> c = x \<and> match_here as False cs)"

text \<open>An unanchored search: some alternative matches at some position of the text.\<close>

fun search_from :: "regex \<Rightarrow> bool \<Rightarrow> string \<Rightarrow> bool" where
  "search_from re at_start [] = list_ex (\<lambda>alt. match_here alt at_start []) re"
| "search_from re at_start (c # cs) =
     (list_ex (\<lambda>alt. match_here alt at_start (c # cs)) re \<or> search_from re False cs)"

text \<open>
  \<^verbatim>\<open>regexp.MatchString(pattern, s)\<close> returns whether the text contains a match, and an
  error when the pattern does not compile (then the match is false). The second component
  tells whether there is an error.
\<close>

definition regexp_MatchString :: "string \<Rightarrow> string \<Rightarrow> bool \<times> bool" where
  "regexp_MatchString pattern s =
     (case regexp_Compile pattern of
        None \<Rightarrow> (False, True)
      | Some re \<Rightarrow> (search_from re True s, False))"

definition crdbVersionsInvertedRegexp :: string where
  "crdbVersionsInvertedRegexp = ''^v19|^v21.1.8$|latest|ubi$''"

definition isValid :: "string \<Rightarrow> bool" where
  "isValid version = (let (match, _) = regexp_MatchString crdbVersionsInvertedRegexp version
                      in \<not> match)"

record crdb_tag =
  Name :: string

record crdb_repository =
  Tags :: "crdb_tag list"

record crdb_data =
  Repositories :: "crdb_repository list"

record crdbVersionsResponse =
  Data :: "crdb_data list"

text \<open>The three nested loops of \<^verbatim>\<open>getVersions\<close>, each appending to \<open>versions\<close>.\<close>

definition getVersions :: "crdbVersionsResponse \<Rightarrow> string list" where
  "getVersions data =
     foldl (\<lambda>versions d.
       foldl (\<lambda>versions repo.
         foldl (\<lambda>versions tag.
           if isValid (Name tag) then versions @ [Name tag] else versions)
           versions (Tags repo))
         versions (Repositories d))
       [] (Data data)"

section \<open>The version catalog script: semantic versions\<close>

text \<open>
  The script parses and orders versions with \<^verbatim>\<open>github.com/Masterminds/semver/v3\<close> (the
  import at line 31), a library outside the repository. What follows transcribes the part
  of the library that \<^verbatim>\<open>sortVersions\<close> reaches: \<^verbatim>\<open>NewVersion\<close>, \<^verbatim>\<open>Original\<close>, and
  \<^verbatim>\<open>Compare\<close> behind \<^verbatim>\<open>Collection.Less\<close>. The numbers are \<^verbatim>\<open>uint64\<close> in the
  library; they are natural numbers below \<open>2 ^ 64\<close> here, the bound being checked where
  the library checks it, in \<^verbatim>\<open>strconv.ParseUint\<close>.
\<close>

record Version =
  major :: nat
  minor :: nat
  patch :: nat
  pre :: string
  metadata :: string
  original :: string

datatype semver_error =
    ErrInvalidSemVer
  | ErrParsingVersionSegment
  | ErrSegmentStartsZero
  | ErrInvalidPrerelease
  | ErrInvalidMetadata

text \<open>The library's character sets \<^verbatim>\<open>num\<close> and \<^verbatim>\<open>allowed\<close>.\<close>

definition num :: string where
  "num = ''0123456789''"

definition allowed :: string where
  "allowed = ''abcdefghijklmnopqrstuvwxyzABCDEFGHIJKLMNOPQRSTUVWXYZ-'' @ num"

definition containsOnly :: "string \<Rightarrow> string \<Rightarrow> bool" where
  "containsOnly s chars = list_all (\<lambda>c. c \<in> set chars) s"

text \<open>
  \<^verbatim>\<open>strconv.ParseUint(s, 10, 64)\<close>: a non-empty string of decimal digits whose value
  fits 64 bits; anything else is an error (\<open>None\<close>).
\<close>

definition digit_val :: "char \<Rightarrow> nat" where
  "digit_val c = of_char c - of_char CHR ''0''"

definition decimal :: "string \<Rightarrow> nat" where
  "decimal s = foldl (\<lambda>n c. 10 * n + digit_val c) 0 s"

definition strconv_ParseUint :: "string \<Rightarrow> nat option" where
  "strconv_ParseUint s =
     (if s = [] \<or> \<not> containsOnly s num then None
      else if decimal s < 2 ^ 64 then Some (decimal s)
      else None)"

definition strings_TrimPrefix :: "string \<Rightarrow> string \<Rightarrow> string" where
  "strings_TrimPrefix s p = (if prefix p s then drop (length p) s else s)"

text \<open>
  The library's pattern, anchored at both ends:
  \<^verbatim>\<open>v?([0-9]+)(\.[0-9]+)?(\.[0-9]+)?(-([0-9A-Za-z\-]+(\.[0-9A-Za-z\-]+)*))?(\+([0-9A-Za-z\-]+(\.[0-9A-Za-z\-]+)*))?\<close>.
  \<open>dotted_idents\<close> is the shape of groups 5 and 8: non-empty pieces of allowed
  characters separated by dots. \<open>dot_digits\<close> takes an optional group \<^verbatim>\<open>(\.[0-9]+)?\<close>
  off the front of a text and returns the group with what follows it.
  \<open>versionRegex_FindStringSubmatch\<close> returns the groups 1, 2, 3, 5 and 8 of the one way
  the whole text can match, or \<open>None\<close> when it does not match: each group of digits must
  take all the digits in front of it, the pre-release runs up to the first \<^verbatim>\<open>+\<close> and the
  metadata to the end.
\<close>

definition dotted_idents :: "string \<Rightarrow> bool" where
  "dotted_idents s =
     list_all (\<lambda>p. p \<noteq> [] \<and> containsOnly p allowed) (strings_Split CHR ''.'' s)"

definition dot_digits :: "string \<Rightarrow> string \<times> string" where
  "dot_digits r =
     (case r of
        [] \<Rightarrow> ([], r)
      | c # t \<Rightarrow>
          if c = CHR ''.'' \<and> takeWhile (\<lambda>x. x \<in> set num) t \<noteq> []
          then (c # takeWhile (\<lambda>x. x \<in> set num) t, dropWhile (\<lambda>x. x \<in> set num) t)
          else ([], r))"

definition versionRegex_FindStringSubmatch ::
    "string \<Rightarrow> (string \<times> string \<times> string \<times> string \<times> string) option" where
  "versionRegex_FindStringSubmatch v =
     (let s0 = (case v of [] \<Rightarrow> v | c # t \<Rightarrow> if c = CHR ''v'' then t else v);
          m1 = takeWhile (\<lambda>x. x \<in> set num) s0;
          r1 = dropWhile (\<lambda>x. x \<in> set num) s0;
          (m2, r2) = dot_digits r1;
          (m3, r3) = dot_digits r2;
          has_pre = (case r3 of [] \<Rightarrow> False | c # t \<Rightarrow> c = CHR ''-'');
          m5 = (if has_pre then takeWhile (\<lambda>x. x \<noteq> CHR ''+'') (tl r3) else []);
          r5 = (if has_pre then dropWhile (\<lambda>x. x \<noteq> CHR ''+'') (tl r3) else r3);
          has_meta = (case r5 of [] \<Rightarrow> False | c # t \<Rightarrow> c = CHR ''+'');
          m8 = (if has_meta then tl r5 else [])
      in if m1 = [] then None
         else if has_pre \<and> \<not> dotted_idents m5 then None
         else if r5 \<noteq> [] \<and> \<not> has_meta then None
         else if has_meta \<and> \<not> dotted_idents m8 then None
         else Some (m1, m2, m3, m5, m8))"

text \<open>
  \<^verbatim>\<open>validatePrerelease\<close> and \<^verbatim>\<open>validateMetadata\<close>: the loops over the pieces between
  dots; the first piece that fails gives the error.
\<close>

fun validatePrerelease_parts :: "string list \<Rightarrow> semver_error option" where
  "validatePrerelease_parts [] = None"
| "validatePrerelease_parts (p # ps) =
     (if containsOnly p num then
        (if length p > 1 \<and> hd p = CHR ''0'' then Some ErrSegmentStartsZero
         else validatePrerelease_parts ps)
      else if \<not> containsOnly p allowed then Some ErrInvalidPrerelease
      else validatePrerelease_parts ps)"

definition validatePrerelease :: "string \<Rightarrow> semver_error option" where
  "validatePrerelease p = validatePrerelease_parts (strings_Split CHR ''.'' p)"

fun validateMetadata_parts :: "string list \<Rightarrow> semver_error option" where
  "validateMetadata_parts [] = None"
| "validateMetadata_parts (p # ps) =
     (if \<not> containsOnly p allowed then Some ErrInvalidMetadata
      else validateMetadata_parts ps)"

definition validateMetadata :: "string \<Rightarrow> semver_error option" where
  "validateMetadata m = validateMetadata_parts (strings_Split CHR ''.'' m)"

text \<open>
  \<^verbatim>\<open>NewVersion\<close>: match the pattern, parse the three numbers (a missing minor or patch
  is 0), validate the pre-release and the metadata when they are present. The string given
  is kept as \<open>original\<close>.
\<close>

definition NewVersion :: "string \<Rightarrow> semver_error + Version" where
  "NewVersion v =
     (case versionRegex_FindStringSubmatch v of
        None \<Rightarrow> Inl ErrInvalidSemVer
      | Some (m1, m2, m3, m5, m8) \<Rightarrow>
     (case strconv_ParseUint m1 of
        None \<Rightarrow> Inl ErrParsingVersionSegment
      | Some mj \<Rightarrow>
     (case (if m2 \<noteq> [] then strconv_ParseUint (strings_TrimPrefix m2 ''.'') else Some 0) of
        None \<Rightarrow> Inl ErrParsingVersionSegment
      | Some mn \<Rightarrow>
     (case (if m3 \<noteq> [] then strconv_ParseUint (strings_TrimPrefix m3 ''.'') else Some 0) of
        None \<Rightarrow> Inl ErrParsingVersionSegment
      | Some pt \<Rightarrow>
     (case (if m5 \<noteq> [] then validatePrerelease m5 else None) of
        Some err \<Rightarrow> Inl err
      | None \<Rightarrow>
     (case (if m8 \<noteq> [] then validateMetadata m8 else None) of
        Some err \<Rightarrow> Inl err
      | None \<Rightarrow>
          Inr \<lparr>major = mj, minor = mn, patch = pt, pre = m5, metadata = m8,
               original = v\<rparr>))))))"

definition Original :: "Version \<Rightarrow> string" where
  "Original v = original v"

text \<open>The comparison: \<open>-1\<close>, \<open>0\<close> or \<open>1\<close>.\<close>

definition compareSegment :: "nat \<Rightarrow> nat \<Rightarrow> int" where
  "compareSegment v o' = (if v < o' then -1 else if v > o' then 1 else 0)"

definition comparePrePart :: "string \<Rightarrow> string \<Rightarrow> int" where
  "comparePrePart s o' =
     (if s = o' then 0
      else if s = [] then (if o' \<noteq> [] then -1 else 1)
      else if o' = [] then (if s \<noteq> [] then 1 else -1)
      else
        (case (strconv_ParseUint o', strconv_ParseUint s) of
           (None, None) \<Rightarrow> (if s > o' then 1 else -1)
         | (None, Some si) \<Rightarrow> -1
         | (Some oi, None) \<Rightarrow> 1
         | (Some oi, Some si) \<Rightarrow> (if si > oi then 1 else -1)))"

text \<open>
  The loop of \<^verbatim>\<open>comparePrerelease\<close> runs over the longer of the two lists of pieces,
  the shorter one padded with empty pieces, and returns the first difference.
\<close>

fun comparePrerelease_parts :: "string list \<Rightarrow> string list \<Rightarrow> int" where
  "comparePrerelease_parts [] [] = 0"
| "comparePrerelease_parts (s # sparts) [] =
     (let d = comparePrePart s [] in if d \<noteq> 0 then d else comparePrerelease_parts sparts [])"
| "comparePrerelease_parts [] (o' # oparts) =
     (let d = comparePrePart [] o' in if d \<noteq> 0 then d else comparePrerelease_parts [] oparts)"
| "comparePrerelease_parts (s # sparts) (o' # oparts) =
     (let d = comparePrePart s o' in
      if d \<noteq> 0 then d else comparePrerelease_parts sparts oparts)"

definition comparePrerelease :: "string \<Rightarrow> string \<Rightarrow> int" where
  "comparePrerelease v o' =
     comparePrerelease_parts (strings_Split CHR ''.'' v) (strings_Split CHR ''.'' o')"

definition Compare :: "Version \<Rightarrow> Version \<Rightarrow> int" where
  "Compare v o' =
     (if compareSegment (major v) (major o') \<noteq> 0 then compareSegment (major v) (major o')
      else if compareSegment (minor v) (minor o') \<noteq> 0 then compareSegment (minor v) (minor o')
      else if compareSegment (patch v) (patch o') \<noteq> 0 then compareSegment (patch v) (patch o')
      else if pre v = [] \<and> pre o' = [] then 0
      else if pre v = [] then 1
      else if pre o' = [] then -1
      else comparePrerelease (pre v) (pre o'))"

definition LessThan :: "Version \<Rightarrow> Version \<Rightarrow> bool" where
  "LessThan v o' = (Compare v o' < 0)"

text \<open>
  \<^verbatim>\<open>sort.Sort(semver.Collection(vs))\<close>, modelled by the insertion sort of Go's sort
  package, the whole of \<^verbatim>\<open>sort.Sort\<close> on slices of up to 12 elements:
  \<^verbatim>\<open>for i := a+1; i < b; i++ { for j := i; j > a && less(j, j-1); j-- { swap(j, j-1) } }\<close>.
  \<open>insert_left\<close> is the inner loop: the sorted part of the slice is given from right to
  left, and \<open>x\<close> moves left past every element it is less than. Longer slices are
  partitioned first; the properties proved below (the order and the elements of the result)
  are the contract of \<^verbatim>\<open>sort.Sort\<close> and do not depend on which elements that compare
  equal come first.
\<close>

fun insert_left :: "('a \<Rightarrow> 'a \<Rightarrow> bool) \<Rightarrow> 'a \<Rightarrow> 'a list \<Rightarrow> 'a list" where
  "insert_left lt x [] = [x]"
| "insert_left lt x (y # ys) =
     (if lt x y then y # insert_left lt x ys else x # y # ys)"

definition insertionSort :: "('a \<Rightarrow> 'a \<Rightarrow> bool) \<Rightarrow> 'a list \<Rightarrow> 'a list" where
  "insertionSort lt xs = rev (foldl (\<lambda>sorted_part x. insert_left lt x sorted_part) [] xs)"

definition sort_Sort :: "Version list \<Rightarrow> Version list" where
  "sort_Sort vs = insertionSort LessThan vs"

section \<open>The version catalog script: sorting and writing the manifest\<close>

text \<open>
  \<^verbatim>\<open>log.Fatalf\<close> prints its message and exits the process with status 1; deferred calls
  do not run. Each constructor is one of the script's fatal messages.
\<close>

datatype fatal =
    CannotCreateFile
  | CannotParseResponse
  | CannotParseVersion semver_error
  | CannotReadBoilerplate
  | CannotWriteFile

text \<open>The first loop of \<^verbatim>\<open>sortVersions\<close>: parse each string in turn, fatal at the first error.\<close>

fun parse_versions :: "string list \<Rightarrow> fatal + Version list" where
  "parse_versions [] = Inr []"
| "parse_versions (r # rs) =
     (case NewVersion r of
        Inl err \<Rightarrow> Inl (CannotParseVersion err)
      | Inr v \<Rightarrow>
          (case parse_versions rs of
             Inl f \<Rightarrow> Inl f
           | Inr vs \<Rightarrow> Inr (v # vs)))"

definition sortVersions :: "string list \<Rightarrow> fatal + string list" where
  "sortVersions versions =
     (case parse_versions versions of
        Inl f \<Rightarrow> Inl f
      | Inr vs \<Rightarrow> Inr (map Original (sort_Sort vs)))"

definition crdbVersionsFileName :: string where
  "crdbVersionsFileName = ''crdb-versions.yaml''"

definition crdbVersionsFileDescription :: string where
  "crdbVersionsFileDescription =
     concat (map (\<lambda>line. line @ [CHR 0x0A])
       [''#'',
        ''# Supported CockroachDB versions.'',
        ''#'',
        ''# This file contains a list of CockroachDB versions that are supported by the'',
        ''# operator. hack/crdbversions/main.go uses this list to generate various'',
        ''# manifests.'',
        ''# Please update this file when CockroachDB releases new versions.'',
        ''#'',
        ''# Generated. DO NOT EDIT. This file is created via make release/gen-templates'',
        ''''])"

text \<open>
  What \<^verbatim>\<open>main\<close> meets outside the program: whether the output file can be created,
  the decoded catalog response (\<open>None\<close>: the request or the decoding failed), the
  boilerplate file (\<open>None\<close>: it cannot be read), and whether the final write succeeds.
\<close>

record world =
  create_ok :: bool
  response :: "crdbVersionsResponse option"
  boilerplate :: "string option"
  write_ok :: bool

text \<open>The calls \<^verbatim>\<open>main\<close> makes on the outside, in order.\<close>

datatype io =
    OsCreate string
  | HttpGet
  | ReadFile string
  | WriteFile string string
  | FileClose string

text \<open>
  \<^verbatim>\<open>main\<close>: the calls made and the fatal exit, if any. The YAML encoder of
  \<^verbatim>\<open>gopkg.in/yaml.v3\<close> is the parameter \<open>yaml\<close>, applied to the one-entry map from
  \<^verbatim>\<open>CrdbVersions\<close> to the sorted versions. The deferred \<^verbatim>\<open>f.Close()\<close> runs only when
  \<^verbatim>\<open>main\<close> returns.
\<close>

definition main :: "(string \<times> string list \<Rightarrow> string) \<Rightarrow> world \<Rightarrow> io list \<times> fatal option" where
  "main yaml w =
     (if \<not> create_ok w then ([OsCreate crdbVersionsFileName], Some CannotCreateFile)
      else
     (case response w of
        None \<Rightarrow> ([OsCreate crdbVersionsFileName, HttpGet], Some CannotParseResponse)
      | Some responseData \<Rightarrow>
     (let versions = getVersions responseData in
      case sortVersions versions of
        Inl f \<Rightarrow> ([OsCreate crdbVersionsFileName, HttpGet], Some f)
      | Inr sortedVersions \<Rightarrow>
     (let b = yaml (''CrdbVersions'', sortedVersions) in
      case boilerplate w of
        None \<Rightarrow>
          ([OsCreate crdbVersionsFileName, HttpGet,
            ReadFile ''hack/boilerplate/boilerplate.yaml.txt''],
           Some CannotReadBoilerplate)
      | Some contents \<Rightarrow>
     (let result = (contents @ crdbVersionsFileDescription) @ b in
      if \<not> write_ok w then
        ([OsCreate crdbVersionsFileName, HttpGet,
          ReadFile ''hack/boilerplate/boilerplate.yaml.txt'',
          WriteFile crdbVersionsFileName result],
         Some CannotWriteFile)
      else
        ([OsCreate crdbVersionsFileName, HttpGet,
          ReadFile ''hack/boilerplate/boilerplate.yaml.txt'',
          WriteFile crdbVersionsFileName result,
          FileClose crdbVersionsFileName],
         None))))))"

section \<open>Notions for the order of versions\<close>






section \<open>Properties of the e2e tests\<close>

lemma fst_call: "fst (call ext e k) = (if ext e then e # fst k else [e])"
  by (simp add: call_def)

lemma snd_call: "snd (call ext e k) = (if ext e then snd k else Failed)"
  by (simp add: call_def)

lemma fst_effect: "fst (effect e k) = e # fst k"
  by (simp add: effect_def)

lemma snd_effect: "snd (effect e k) = snd k"
  by (simp add: effect_def)

lemma fst_go_defer: "fst (go_defer d k) = fst k @ [d]"
  by (simp add: go_defer_def)

lemma snd_go_defer: "snd (go_defer d k) = snd k"
  by (simp add: go_defer_def)

lemma fst_go_if: "fst (go_if c s k) = (if c then fst (s k) else fst k)"
  by (simp add: go_if_def)

lemma snd_go_if: "snd (go_if c s k) = (if c then snd (s k) else snd k)"
  by (simp add: go_if_def)

lemma fst_Steps_Run_single:
  "fst (Steps_Run [s] k) =
     (if snd (step.Test s) = Failed then TRun (step.Name s) # fst (step.Test s)
      else TRun (step.Name s) # fst (step.Test s) @ fst k)"
  by simp

lemma snd_Steps_Run_single:
  "snd (Steps_Run [s] k) = (if snd (step.Test s) = Failed then Failed else snd k)"
  by simp

lemmas run_simps =
  fst_call snd_call fst_effect snd_effect fst_go_defer snd_go_defer fst_go_if snd_go_if
  fst_Steps_Run_single snd_Steps_Run_single t_Skip_def go_return_def

lemmas builder_defs =
  NewBuilder_def WithNodeCount_def WithTLS_def WithImage_def WithPVDataStore_def Cr_def

lemma package_init_eq:
  "package_init =
     \<lparr>flags = [''test.short'' \<mapsto> False, ''parallel'' \<mapsto> False, ''pvc'' \<mapsto> False],
      parallel = False, pvc = ''pvc''\<rparr>"
  by (simp add: package_init_def flag_Bool_def deref_def testing_init_def)

lemma flag_Parse_keeps_vars:
  "flag_Parse args pk = Some pk' \<Longrightarrow> parallel pk' = parallel pk \<and> pvc pk' = pvc pk"
  by (induction args pk rule: flag_Parse.induct) (auto split: if_splits)

lemma flag_Parse_value:
  "flag_Parse args pk = Some pk' \<Longrightarrow>
   flags pk' n = (case map_of (rev args) n of Some v \<Rightarrow> Some v | None \<Rightarrow> flags pk n)"
  by (induction args pk rule: flag_Parse.induct)
     (auto split: if_splits option.splits simp: map_add_def)

lemma parallel_after_Parse:
  "flag_Parse args package_init = Some pk \<Longrightarrow> \<not> parallel pk"
  using flag_Parse_keeps_vars [of args package_init pk] by (simp add: package_init_eq)

lemma env_scope:
  assumes "EnvStart e \<in> set (fst (go_if p (effect TParallel)
             (if s then t_Skip m else effect SetActorLog
               (call ext CreateActiveEnvForTest
                 (call ext (EnvStart e0) (go_defer (EnvStop e0) K))))))"
    and "ext (EnvStart e)"
  shows "last (fst (go_if p (effect TParallel)
             (if s then t_Skip m else effect SetActorLog
               (call ext CreateActiveEnvForTest
                 (call ext (EnvStart e0) (go_defer (EnvStop e0) K)))))) = EnvStop e"
  using assms by (cases e; cases e0) (auto simp: run_simps split: if_splits)

text \<open>
  C1, at the command line \<^verbatim>\<open>-parallel=true\<close>: the flag's cell holds true after parsing,
  but the variable \<open>parallel\<close> was read from the cell during package initialisation and
  is false, so none of the four tests calls \<^verbatim>\<open>t.Parallel()\<close>, whatever the
  collaborators do.
\<close>

theorem parallel_flag_true_is_not_seen:
  "\<exists>pk. flag_Parse [(''parallel'', True)] package_init = Some pk
      \<and> deref (flags pk) ''parallel''
      \<and> \<not> parallel pk
      \<and> TParallel \<notin> set (fst (TestCreateInsecureCluster pk ext))
      \<and> TParallel \<notin> set (fst (TestCreatesSecureCluster pk ext))
      \<and> TParallel \<notin> set (fst (TestCreateSecureClusterWithInvalidVersion pk ext))
      \<and> TParallel \<notin> set (fst (TestCreateSecureClusterWithNonCRDBImage pk ext))"
proof -
  let ?pk = "\<lparr>flags = [''test.short'' \<mapsto> False, ''parallel'' \<mapsto> True, ''pvc'' \<mapsto> False],
             parallel = False, pvc = ''pvc''\<rparr>"
  have parse: "flag_Parse [(''parallel'', True)] package_init = Some ?pk"
    by (simp add: package_init_eq fun_upd_twist)
  have cell: "deref (flags ?pk) ''parallel''"
    by (simp add: deref_def)
  have var: "\<not> parallel ?pk"
    by simp
  have t1: "TParallel \<notin> set (fst (TestCreateInsecureCluster ?pk ext))"
    by (simp add: TestCreateInsecureCluster_def Let_def run_simps del: Steps_Run.simps)
  have t2: "TParallel \<notin> set (fst (TestCreatesSecureCluster ?pk ext))"
    by (simp add: TestCreatesSecureCluster_def Let_def run_simps del: Steps_Run.simps)
  have t3: "TParallel \<notin> set (fst (TestCreateSecureClusterWithInvalidVersion ?pk ext))"
    by (simp add: TestCreateSecureClusterWithInvalidVersion_def Let_def run_simps
             del: Steps_Run.simps)
  have t4: "TParallel \<notin> set (fst (TestCreateSecureClusterWithNonCRDBImage ?pk ext))"
    by (simp add: TestCreateSecureClusterWithNonCRDBImage_def Let_def run_simps
             del: Steps_Run.simps)
  from parse cell var t1 t2 t3 t4 show ?thesis
    by blast
qed

text \<open>
  C2: with short mode off, the insecure-cluster test makes its sandbox calls in the order
  submit, readiness with a 500 second timeout, database probe in insecure mode, on every
  path (a failing call cuts the sequence short, never reorders it); the specification is
  named crdb, has 3 nodes, no TLS, image cockroachdb/cockroach:v21.1.6 and a 1Gi data
  store of storage class standard; and when every call succeeds the whole trace is the
  one given and the test passes.
\<close>

theorem insecure_cluster_scenario:
  assumes "\<not> testing_Short pk"
  shows "(let sb = DiffingSandbox ''TestCreateInsecureCluster'' (Started ActiveEnvForTest);
              b = \<lparr>cr_name = ''crdb'', node_count = Some 3, tls_enabled = False,
                   image_ref = Some ''cockroachdb/cockroach:v21.1.6'',
                   pv_data_store = Some (''1Gi'', ''standard'')\<rparr>;
              ops = [SbCreate sb b,
                     RequireClusterToBeReadyEventuallyTimeout sb b (500 * 1000000000),
                     RequireDatabaseToFunctionInsecure sb b]
          in prefix (filter sandbox_op (fst (TestCreateInsecureCluster pk ext))) ops
           \<and> TestCreateInsecureCluster pk (\<lambda>_. True) =
               ((if parallel pk then [TParallel] else []) @
                [SetActorLog, CreateActiveEnvForTest, EnvStart ActiveEnvForTest,
                 NewDiffingSandbox ''TestCreateInsecureCluster'' (Started ActiveEnvForTest),
                 StartManager sb, TRun ''creates 3-node insecure cluster''] @ ops @
                [TLog ''Done with basic cluster'', EnvStop ActiveEnvForTest], Passed))"
proof -
  have order: "prefix (filter sandbox_op (fst (TestCreateInsecureCluster pk ext)))
      [SbCreate (DiffingSandbox ''TestCreateInsecureCluster'' (Started ActiveEnvForTest))
         \<lparr>cr_name = ''crdb'', node_count = Some 3, tls_enabled = False,
          image_ref = Some ''cockroachdb/cockroach:v21.1.6'',
          pv_data_store = Some (''1Gi'', ''standard'')\<rparr>,
       RequireClusterToBeReadyEventuallyTimeout
         (DiffingSandbox ''TestCreateInsecureCluster'' (Started ActiveEnvForTest))
         \<lparr>cr_name = ''crdb'', node_count = Some 3, tls_enabled = False,
          image_ref = Some ''cockroachdb/cockroach:v21.1.6'',
          pv_data_store = Some (''1Gi'', ''standard'')\<rparr> (500 * 1000000000),
       RequireDatabaseToFunctionInsecure
         (DiffingSandbox ''TestCreateInsecureCluster'' (Started ActiveEnvForTest))
         \<lparr>cr_name = ''crdb'', node_count = Some 3, tls_enabled = False,
          image_ref = Some ''cockroachdb/cockroach:v21.1.6'',
          pv_data_store = Some (''1Gi'', ''standard'')\<rparr>]"
    by (simp add: TestCreateInsecureCluster_def Let_def builder_defs run_simps time_Second_def
             del: Steps_Run.simps)
  have all_pass: "TestCreateInsecureCluster pk (\<lambda>_. True) =
      ((if parallel pk then [TParallel] else []) @
       [SetActorLog, CreateActiveEnvForTest, EnvStart ActiveEnvForTest,
        NewDiffingSandbox ''TestCreateInsecureCluster'' (Started ActiveEnvForTest),
        StartManager (DiffingSandbox ''TestCreateInsecureCluster'' (Started ActiveEnvForTest)),
        TRun ''creates 3-node insecure cluster'',
        SbCreate (DiffingSandbox ''TestCreateInsecureCluster'' (Started ActiveEnvForTest))
          \<lparr>cr_name = ''crdb'', node_count = Some 3, tls_enabled = False,
           image_ref = Some ''cockroachdb/cockroach:v21.1.6'',
           pv_data_store = Some (''1Gi'', ''standard'')\<rparr>,
        RequireClusterToBeReadyEventuallyTimeout
          (DiffingSandbox ''TestCreateInsecureCluster'' (Started ActiveEnvForTest))
          \<lparr>cr_name = ''crdb'', node_count = Some 3, tls_enabled = False,
           image_ref = Some ''cockroachdb/cockroach:v21.1.6'',
           pv_data_store = Some (''1Gi'', ''standard'')\<rparr> (500 * 1000000000),
        RequireDatabaseToFunctionInsecure
          (DiffingSandbox ''TestCreateInsecureCluster'' (Started ActiveEnvForTest))
          \<lparr>cr_name = ''crdb'', node_count = Some 3, tls_enabled = False,
           image_ref = Some ''cockroachdb/cockroach:v21.1.6'',
           pv_data_store = Some (''1Gi'', ''standard'')\<rparr>,
        TLog ''Done with basic cluster'', EnvStop ActiveEnvForTest], Passed)"
    using assms
    by (simp add: TestCreateInsecureCluster_def Let_def builder_defs call_def effect_def
          go_defer_def go_if_def go_return_def time_Second_def)
  show ?thesis
    unfolding Let_def using order all_pass by simp
qed

theorem insecure_cluster_scenario_witness:
  "\<not> testing_Short package_init
   \<and> TestCreateInsecureCluster package_init (\<lambda>_. True) =
       ([SetActorLog, CreateActiveEnvForTest, EnvStart ActiveEnvForTest,
         NewDiffingSandbox ''TestCreateInsecureCluster'' (Started ActiveEnvForTest),
         StartManager (DiffingSandbox ''TestCreateInsecureCluster'' (Started ActiveEnvForTest)),
         TRun ''creates 3-node insecure cluster'',
         SbCreate (DiffingSandbox ''TestCreateInsecureCluster'' (Started ActiveEnvForTest))
           \<lparr>cr_name = ''crdb'', node_count = Some 3, tls_enabled = False,
            image_ref = Some ''cockroachdb/cockroach:v21.1.6'',
            pv_data_store = Some (''1Gi'', ''standard'')\<rparr>,
         RequireClusterToBeReadyEventuallyTimeout
           (DiffingSandbox ''TestCreateInsecureCluster'' (Started ActiveEnvForTest))
           \<lparr>cr_name = ''crdb'', node_count = Some 3, tls_enabled = False,
            image_ref = Some ''cockroachdb/cockroach:v21.1.6'',
            pv_data_store = Some (''1Gi'', ''standard'')\<rparr> 500000000000,
         RequireDatabaseToFunctionInsecure
           (DiffingSandbox ''TestCreateInsecureCluster'' (Started ActiveEnvForTest))
           \<lparr>cr_name = ''crdb'', node_count = Some 3, tls_enabled = False,
            image_ref = Some ''cockroachdb/cockroach:v21.1.6'',
            pv_data_store = Some (''1Gi'', ''standard'')\<rparr>,
         TLog ''Done with basic cluster'', EnvStop ActiveEnvForTest], Passed)"
proof -
  have short: "\<not> testing_Short package_init"
    by (simp add: testing_Short_def package_init_eq deref_def)
  have par: "\<not> parallel package_init"
    by (simp add: package_init_eq)
  from insecure_cluster_scenario [OF short, of "\<lambda>_. True"] par short show ?thesis
    by (simp add: Let_def)
qed

text \<open>
  C3: in the invalid-image-tag test the sandbox calls are, on every path, an initial
  part of: submit the specification with image cockroachdb/cockroach:v20.2.555, assert
  image pull backoff, assert failed state, all on the same sandbox. So the failed-state
  assertion only ever runs after the backoff assertion; whenever the backoff assertion
  runs and succeeds, the failed-state assertion runs next; and the test passes only if both
  assertions succeed. With short mode off and every call succeeding, all three are made.
\<close>

theorem invalid_version_backoff_then_failed:
  "(let sb = DiffingSandbox ''TestCreateSecureClusterWithInvalidVersion''
               (Started ActiveEnvForTest);
        b = \<lparr>cr_name = ''crdb'', node_count = Some 3, tls_enabled = True,
             image_ref = Some ''cockroachdb/cockroach:v20.2.555'',
             pv_data_store = Some (''1Gi'', ''standard'')\<rparr>;
        ops = [SbCreate sb b, RequireClusterInImagePullBackoff sb b,
               RequireClusterInFailedState sb b];
        tr = fst (TestCreateSecureClusterWithInvalidVersion pk ext)
    in prefix (filter sandbox_op tr) ops
     \<and> (RequireClusterInImagePullBackoff sb b \<in> set tr
          \<and> ext (RequireClusterInImagePullBackoff sb b)
          \<longrightarrow> RequireClusterInFailedState sb b \<in> set tr)
     \<and> (snd (TestCreateSecureClusterWithInvalidVersion pk ext) = Passed
          \<and> \<not> testing_Short pk
          \<longrightarrow> ext (RequireClusterInImagePullBackoff sb b)
            \<and> ext (RequireClusterInFailedState sb b))
     \<and> (\<not> testing_Short pk
          \<longrightarrow> filter sandbox_op (fst (TestCreateSecureClusterWithInvalidVersion pk (\<lambda>_. True)))
              = ops))"
proof -
  let ?sb = "DiffingSandbox ''TestCreateSecureClusterWithInvalidVersion''
               (Started ActiveEnvForTest)"
  let ?b = "\<lparr>cr_name = ''crdb'', node_count = Some 3, tls_enabled = True,
             image_ref = Some ''cockroachdb/cockroach:v20.2.555'',
             pv_data_store = Some (''1Gi'', ''standard'')\<rparr>"
  let ?T = "TestCreateSecureClusterWithInvalidVersion"
  have order: "prefix (filter sandbox_op (fst (?T pk ext)))
      [SbCreate ?sb ?b, RequireClusterInImagePullBackoff ?sb ?b,
       RequireClusterInFailedState ?sb ?b]"
    by (simp add: TestCreateSecureClusterWithInvalidVersion_def Let_def builder_defs run_simps
             del: Steps_Run.simps)
  have follows: "RequireClusterInFailedState ?sb ?b \<in> set (fst (?T pk ext))"
    if "RequireClusterInImagePullBackoff ?sb ?b \<in> set (fst (?T pk ext))"
      and "ext (RequireClusterInImagePullBackoff ?sb ?b)"
    using that
    by (simp add: TestCreateSecureClusterWithInvalidVersion_def Let_def builder_defs run_simps
             del: Steps_Run.simps split: if_splits)
  have passed: "ext (RequireClusterInImagePullBackoff ?sb ?b)
      \<and> ext (RequireClusterInFailedState ?sb ?b)"
    if "snd (?T pk ext) = Passed" and "\<not> testing_Short pk"
    using that
    by (simp add: TestCreateSecureClusterWithInvalidVersion_def Let_def builder_defs run_simps
             del: Steps_Run.simps split: if_splits)
  have all_pass: "filter sandbox_op (fst (?T pk (\<lambda>_. True))) =
      [SbCreate ?sb ?b, RequireClusterInImagePullBackoff ?sb ?b,
       RequireClusterInFailedState ?sb ?b]"
    if "\<not> testing_Short pk"
    using that
    by (simp add: TestCreateSecureClusterWithInvalidVersion_def Let_def builder_defs run_simps
             del: Steps_Run.simps)
  show ?thesis
    unfolding Let_def using order follows passed all_pass by blast
qed

theorem invalid_version_backoff_then_failed_witness:
  "RequireClusterInImagePullBackoff
       (DiffingSandbox ''TestCreateSecureClusterWithInvalidVersion'' (Started ActiveEnvForTest))
       \<lparr>cr_name = ''crdb'', node_count = Some 3, tls_enabled = True,
        image_ref = Some ''cockroachdb/cockroach:v20.2.555'',
        pv_data_store = Some (''1Gi'', ''standard'')\<rparr>
     \<in> set (fst (TestCreateSecureClusterWithInvalidVersion package_init (\<lambda>_. True)))
   \<and> RequireClusterInFailedState
       (DiffingSandbox ''TestCreateSecureClusterWithInvalidVersion'' (Started ActiveEnvForTest))
       \<lparr>cr_name = ''crdb'', node_count = Some 3, tls_enabled = True,
        image_ref = Some ''cockroachdb/cockroach:v20.2.555'',
        pv_data_store = Some (''1Gi'', ''standard'')\<rparr>
     \<in> set (fst (TestCreateSecureClusterWithInvalidVersion package_init (\<lambda>_. True)))
   \<and> \<not> testing_Short package_init
   \<and> snd (TestCreateSecureClusterWithInvalidVersion package_init (\<lambda>_. True)) = Passed"
proof -
  let ?sb = "DiffingSandbox ''TestCreateSecureClusterWithInvalidVersion''
               (Started ActiveEnvForTest)"
  let ?b = "\<lparr>cr_name = ''crdb'', node_count = Some 3, tls_enabled = True,
             image_ref = Some ''cockroachdb/cockroach:v20.2.555'',
             pv_data_store = Some (''1Gi'', ''standard'')\<rparr>"
  let ?tr = "fst (TestCreateSecureClusterWithInvalidVersion package_init (\<lambda>_. True))"
  have short: "\<not> testing_Short package_init"
    by (simp add: testing_Short_def package_init_eq deref_def)
  have res: "snd (TestCreateSecureClusterWithInvalidVersion package_init (\<lambda>_. True)) = Passed"
    using short
    by (simp add: TestCreateSecureClusterWithInvalidVersion_def Let_def run_simps
             del: Steps_Run.simps)
  note main = invalid_version_backoff_then_failed [of package_init "\<lambda>_. True", unfolded Let_def]
  from main short have ops: "filter sandbox_op ?tr =
      [SbCreate ?sb ?b, RequireClusterInImagePullBackoff ?sb ?b,
       RequireClusterInFailedState ?sb ?b]"
    by blast
  have "RequireClusterInImagePullBackoff ?sb ?b \<in> set (filter sandbox_op ?tr)"
    unfolding ops by simp
  then have backoff: "RequireClusterInImagePullBackoff ?sb ?b \<in> set ?tr"
    by simp
  with main have failed: "RequireClusterInFailedState ?sb ?b \<in> set ?tr"
    by blast
  from backoff failed short res show ?thesis
    by blast
qed

text \<open>
  C4: in short mode each of the four tests ends at \<^verbatim>\<open>t.Skip\<close>: its whole trace is the
  skip (after \<^verbatim>\<open>t.Parallel()\<close> when \<open>parallel\<close> is set), so no environment is created,
  no manager started, no resource submitted and no step run.
\<close>

theorem short_mode_skips_whole_test:
  assumes "testing_Short pk"
  shows "TestCreateInsecureCluster pk ext =
           ((if parallel pk then [TParallel] else []) @
            [TSkip ''skipping test in short mode.''], Skipped)
       \<and> TestCreatesSecureCluster pk ext =
           ((if parallel pk then [TParallel] else []) @
            [TSkip ''skipping test in short mode.''], Skipped)
       \<and> TestCreateSecureClusterWithInvalidVersion pk ext =
           ((if parallel pk then [TParallel] else []) @
            [TSkip ''skipping test in short mode.''], Skipped)
       \<and> TestCreateSecureClusterWithNonCRDBImage pk ext =
           ((if parallel pk then [TParallel] else []) @
            [TSkip ''skipping test in short mode.''], Skipped)"
  using assms
  by (simp add: TestCreateInsecureCluster_def TestCreatesSecureCluster_def
        TestCreateSecureClusterWithInvalidVersion_def TestCreateSecureClusterWithNonCRDBImage_def
        go_if_def effect_def t_Skip_def)

theorem short_mode_skips_whole_test_witness:
  "\<exists>pk. flag_Parse [(''test.short'', True)] package_init = Some pk
      \<and> testing_Short pk
      \<and> TestCreateInsecureCluster pk (\<lambda>_. True) =
          ([TSkip ''skipping test in short mode.''], Skipped)
      \<and> TestCreateSecureClusterWithNonCRDBImage pk (\<lambda>_. True) =
          ([TSkip ''skipping test in short mode.''], Skipped)"
proof -
  let ?pk = "package_init\<lparr>flags := (flags package_init)(''test.short'' \<mapsto> True)\<rparr>"
  have parse: "flag_Parse [(''test.short'', True)] package_init = Some ?pk"
    by (simp add: package_init_eq)
  have short: "testing_Short ?pk"
    by (simp add: testing_Short_def deref_def)
  have par: "\<not> parallel ?pk"
    by (simp add: package_init_eq)
  from short_mode_skips_whole_test [OF short, of "\<lambda>_. True"] par
  have "TestCreateInsecureCluster ?pk (\<lambda>_. True) =
          ([TSkip ''skipping test in short mode.''], Skipped)
      \<and> TestCreateSecureClusterWithNonCRDBImage ?pk (\<lambda>_. True) =
          ([TSkip ''skipping test in short mode.''], Skipped)"
    by simp
  with parse short show ?thesis
    by blast
qed

text \<open>
  C5: in each of the four tests, on every path (whatever calls fail), if the
  environment's Start was called and returned, then the last call of the test is the
  environment's Stop.
\<close>

theorem env_stop_runs_on_every_exit:
  assumes "ext (EnvStart e)"
  shows "(EnvStart e \<in> set (fst (TestCreateInsecureCluster pk ext))
            \<longrightarrow> last (fst (TestCreateInsecureCluster pk ext)) = EnvStop e)
       \<and> (EnvStart e \<in> set (fst (TestCreatesSecureCluster pk ext))
            \<longrightarrow> last (fst (TestCreatesSecureCluster pk ext)) = EnvStop e)
       \<and> (EnvStart e \<in> set (fst (TestCreateSecureClusterWithInvalidVersion pk ext))
            \<longrightarrow> last (fst (TestCreateSecureClusterWithInvalidVersion pk ext)) = EnvStop e)
       \<and> (EnvStart e \<in> set (fst (TestCreateSecureClusterWithNonCRDBImage pk ext))
            \<longrightarrow> last (fst (TestCreateSecureClusterWithNonCRDBImage pk ext)) = EnvStop e)"
proof (intro conjI impI)
  assume "EnvStart e \<in> set (fst (TestCreateInsecureCluster pk ext))"
  then show "last (fst (TestCreateInsecureCluster pk ext)) = EnvStop e"
    unfolding TestCreateInsecureCluster_def Let_def using assms by (rule env_scope)
next
  assume "EnvStart e \<in> set (fst (TestCreatesSecureCluster pk ext))"
  then show "last (fst (TestCreatesSecureCluster pk ext)) = EnvStop e"
    unfolding TestCreatesSecureCluster_def Let_def using assms by (rule env_scope)
next
  assume "EnvStart e \<in> set (fst (TestCreateSecureClusterWithInvalidVersion pk ext))"
  then show "last (fst (TestCreateSecureClusterWithInvalidVersion pk ext)) = EnvStop e"
    unfolding TestCreateSecureClusterWithInvalidVersion_def Let_def using assms
    by (rule env_scope)
next
  assume "EnvStart e \<in> set (fst (TestCreateSecureClusterWithNonCRDBImage pk ext))"
  then show "last (fst (TestCreateSecureClusterWithNonCRDBImage pk ext)) = EnvStop e"
    unfolding TestCreateSecureClusterWithNonCRDBImage_def Let_def using assms
    by (rule env_scope)
qed

text \<open>
  An instance: every call on the sandbox fails, so the insecure-cluster test fails at the
  submission of the resource; Start had been called and had returned, and Stop is the last
  call.
\<close>

theorem env_stop_runs_on_every_exit_witness:
  "(\<lambda>ev. \<not> sandbox_op ev) (EnvStart ActiveEnvForTest)
   \<and> EnvStart ActiveEnvForTest
       \<in> set (fst (TestCreateInsecureCluster package_init (\<lambda>ev. \<not> sandbox_op ev)))
   \<and> snd (TestCreateInsecureCluster package_init (\<lambda>ev. \<not> sandbox_op ev)) = Failed
   \<and> last (fst (TestCreateInsecureCluster package_init (\<lambda>ev. \<not> sandbox_op ev)))
       = EnvStop ActiveEnvForTest"
proof -
  let ?ext = "\<lambda>ev. \<not> sandbox_op ev"
  have ret: "?ext (EnvStart ActiveEnvForTest)"
    by simp
  have short: "\<not> testing_Short package_init"
    by (simp add: testing_Short_def package_init_eq deref_def)
  have started: "EnvStart ActiveEnvForTest
      \<in> set (fst (TestCreateInsecureCluster package_init ?ext))"
    using short
    by (simp add: TestCreateInsecureCluster_def Let_def run_simps del: Steps_Run.simps)
  have failed: "snd (TestCreateInsecureCluster package_init ?ext) = Failed"
    using short
    by (simp add: TestCreateInsecureCluster_def Let_def run_simps del: Steps_Run.simps)
  from env_stop_runs_on_every_exit [of ?ext ActiveEnvForTest package_init, OF ret] started
  have "last (fst (TestCreateInsecureCluster package_init ?ext)) = EnvStop ActiveEnvForTest"
    by blast
  with ret started failed show ?thesis
    by blast
qed

text \<open>
  C8: after the command line has been parsed, the variants specific to persistent volume
  claims run exactly when the last value given for \<^verbatim>\<open>-pvc\<close> is true; when the flag
  is not given they do not run.
\<close>

theorem pvc_flag_enables_variants:
  assumes "flag_Parse args package_init = Some pk"
  shows "pvc_variants_run pk =
           (case map_of (rev args) ''pvc'' of Some v \<Rightarrow> v | None \<Rightarrow> False)"
proof -
  have "pvc pk = ''pvc''"
    using flag_Parse_keeps_vars [OF assms] by (simp add: package_init_eq)
  moreover have "flags pk ''pvc'' =
      (case map_of (rev args) ''pvc'' of Some v \<Rightarrow> Some v | None \<Rightarrow> Some False)"
    using flag_Parse_value [OF assms, of "''pvc''"]
    by (simp add: package_init_eq split: option.splits)
  ultimately show ?thesis
    by (simp add: pvc_variants_run_def deref_def split: option.splits)
qed

theorem pvc_flag_enables_variants_witness:
  "(\<exists>pk. flag_Parse [(''pvc'', True)] package_init = Some pk \<and> pvc_variants_run pk)
   \<and> (\<exists>pk. flag_Parse [] package_init = Some pk \<and> \<not> pvc_variants_run pk)"
proof -
  let ?pk = "package_init\<lparr>flags := (flags package_init)(''pvc'' \<mapsto> True)\<rparr>"
  have p1: "flag_Parse [(''pvc'', True)] package_init = Some ?pk"
    by (simp add: package_init_eq)
  have p2: "flag_Parse [] package_init = Some package_init"
    by simp
  from pvc_flag_enables_variants [OF p1] have r1: "pvc_variants_run ?pk"
    by simp
  from pvc_flag_enables_variants [OF p2] have r2: "\<not> pvc_variants_run package_init"
    by simp
  from p1 p2 r1 r2 show ?thesis
    by blast
qed

section \<open>Properties of the tag filter\<close>

lemma compiled_pattern:
  "regexp_Compile crdbVersionsInvertedRegexp =
     Some [BeginText # map Lit ''v19'',
           BeginText # map Lit ''v21'' @ AnyCharNotNL # Lit CHR ''1'' # AnyCharNotNL # Lit CHR ''8'' # [EndText],
           map Lit ''latest'',
           map Lit ''ubi'' @ [EndText]]"
  by (simp add: regexp_Compile_def crdbVersionsInvertedRegexp_def outside_fragment_def atom_of_def)

lemma match_here_lits: "match_here (map Lit w @ as) b s = (\<exists>r. s = w @ r \<and> match_here as (b \<and> w = []) r)"
proof (induction w arbitrary: b s)
  case Nil
  then show ?case by simp
next
  case (Cons x w)
  show ?case
    by (cases s) (auto simp: Cons.IH)
qed

lemma match_here_lits_only: "match_here (map Lit w) b s = prefix w s"
  using match_here_lits [of w "[]" b s] by (auto simp: prefix_def)

lemma match_here_lits_end: "match_here (map Lit w @ [EndText]) b s = (s = w)"
  using match_here_lits [of w "[EndText]" b s] by auto

lemma search_from_iff:
  "search_from re b s = (\<exists>alt \<in> set re. \<exists>p r. s = p @ r \<and> match_here alt (b \<and> p = []) r)"
proof (induction s arbitrary: b)
  case Nil
  then show ?case by (simp add: list_ex_iff)
next
  case (Cons c cs)
  have "(\<exists>alt \<in> set re. \<exists>p r. c # cs = p @ r \<and> match_here alt (b \<and> p = []) r) =
        ((\<exists>alt \<in> set re. match_here alt b (c # cs)) \<or>
         (\<exists>alt \<in> set re. \<exists>p r. cs = p @ r \<and> match_here alt False r))"
    (is "?L = (?A \<or> ?B)")
  proof
    assume ?L
    then obtain alt p r where alt: "alt \<in> set re" and eq: "c # cs = p @ r"
      and m: "match_here alt (b \<and> p = []) r"
      by blast
    show "?A \<or> ?B"
    proof (cases p)
      case Nil
      with alt eq m show ?thesis by auto
    next
      case (Cons x p')
      with alt eq m have "cs = p' @ r \<and> match_here alt False r" by simp
      with alt show ?thesis by blast
    qed
  next
    assume "?A \<or> ?B"
    then show ?L
    proof
      assume ?A
      then obtain alt where "alt \<in> set re" "match_here alt b (c # cs)" by blast
      then have "alt \<in> set re \<and> c # cs = [] @ (c # cs) \<and> match_here alt (b \<and> ([]::string) = []) (c # cs)"
        by simp
      then show ?L by blast
    next
      assume ?B
      then obtain alt p r where "alt \<in> set re" "cs = p @ r" "match_here alt False r" by blast
      then have "alt \<in> set re \<and> c # cs = (c # p) @ r \<and> match_here alt (b \<and> c # p = []) r"
        by simp
      then show ?L by blast
    qed
  qed
  then show ?case
    by (simp add: Cons.IH list_ex_iff)
qed

lemma search_v19: "(\<exists>p r. s = p @ r \<and> match_here (BeginText # map Lit ''v19'') (p = []) r) = prefix ''v19'' s"
proof -
  have "match_here (BeginText # map Lit ''v19'') b r = (b \<and> prefix ''v19'' r)" for b r
    using match_here_lits_only [of "''v19''" b r] by simp
  then show ?thesis by auto
qed

lemma match_v2118:
  "match_here (BeginText # map Lit ''v21'' @ AnyCharNotNL # Lit CHR ''1'' # AnyCharNotNL # Lit CHR ''8'' # [EndText]) b r
   = (b \<and> (\<exists>x y. x \<noteq> CHR 0x0A \<and> y \<noteq> CHR 0x0A \<and> r = ''v21'' @ [x] @ ''1'' @ [y] @ ''8''))"
  by (auto split: list.splits)

lemma search_v2118: "(\<exists>p r. s = p @ r \<and> match_here (BeginText # map Lit ''v21'' @ AnyCharNotNL # Lit CHR ''1'' # AnyCharNotNL # Lit CHR ''8'' # [EndText]) (p = []) r)
   = (\<exists>x y. x \<noteq> CHR 0x0A \<and> y \<noteq> CHR 0x0A \<and> s = ''v21'' @ [x] @ ''1'' @ [y] @ ''8'')"
  unfolding match_v2118 by auto

lemma search_latest: "(\<exists>p r. s = p @ r \<and> match_here (map Lit ''latest'') (p = []) r) = sublist ''latest'' s"
  unfolding match_here_lits_only by (auto simp: sublist_def prefix_def)

lemma search_ubi: "(\<exists>p r. s = p @ r \<and> match_here (map Lit ''ubi'' @ [EndText]) (p = []) r) = suffix ''ubi'' s"
  unfolding match_here_lits_end by (auto simp: suffix_def)

lemma MatchString_inverted:
  "fst (regexp_MatchString crdbVersionsInvertedRegexp s) =
     (prefix ''v19'' s
      \<or> (\<exists>x y. x \<noteq> CHR 0x0A \<and> y \<noteq> CHR 0x0A \<and> s = ''v21'' @ [x] @ ''1'' @ [y] @ ''8'')
      \<or> sublist ''latest'' s
      \<or> suffix ''ubi'' s)"
  unfolding regexp_MatchString_def compiled_pattern
  using search_v19 [of s] search_v2118 [of s] search_latest [of s] search_ubi [of s]
  by (simp add: search_from_iff del: match_here.simps map_eq_conv list.map)

lemma foldl_append_filter:
  "foldl (\<lambda>vs x. if P (f x) then vs @ [f x] else vs) acc xs = acc @ filter P (map f xs)"
  by (induction xs arbitrary: acc) simp_all

lemma getVersions_eq:
  "getVersions data = filter isValid (map Name (concat (map Tags (concat (map Repositories (Data data))))))"
proof -
  have inner: "foldl (\<lambda>versions tag. if isValid (Name tag) then versions @ [Name tag] else versions) acc ts
      = acc @ filter isValid (map Name ts)" for acc ts
    by (rule foldl_append_filter)
  have mid: "foldl (\<lambda>versions repo. foldl (\<lambda>versions tag. if isValid (Name tag) then versions @ [Name tag] else versions) versions (Tags repo)) acc rs
      = acc @ filter isValid (map Name (concat (map Tags rs)))" for acc rs
    by (induction rs arbitrary: acc) (simp_all add: inner)
  have outer: "foldl (\<lambda>versions d. foldl (\<lambda>versions repo. foldl (\<lambda>versions tag. if isValid (Name tag) then versions @ [Name tag] else versions) versions (Tags repo)) versions (Repositories d)) acc ds
      = acc @ filter isValid (map Name (concat (map Tags (concat (map Repositories ds)))))" for acc ds
    by (induction ds arbitrary: acc) (simp_all add: mid)
  show ?thesis
    unfolding getVersions_def by (simp add: outer)
qed

text \<open>
  C6: \<^verbatim>\<open>getVersions\<close> returns, in the order of the response and with repetitions, exactly
  the tag names on which the pattern does not match; and the pattern matches a tag exactly
  when the tag begins with v19, or is v21, one character, 1, one character, 8 (neither
  character a newline) and nothing else, or contains latest, or ends in ubi.
\<close>

theorem getVersions_keeps_exactly_unmatched_tags:
  "getVersions data =
     filter (\<lambda>t. \<not> fst (regexp_MatchString crdbVersionsInvertedRegexp t))
       (map Name (concat (map Tags (concat (map Repositories (Data data))))))
   \<and> fst (regexp_MatchString crdbVersionsInvertedRegexp t) =
       (prefix ''v19'' t
        \<or> (\<exists>x y. x \<noteq> CHR 0x0A \<and> y \<noteq> CHR 0x0A \<and> t = ''v21'' @ [x] @ ''1'' @ [y] @ ''8'')
        \<or> sublist ''latest'' t
        \<or> suffix ''ubi'' t)"
proof -
  have "isValid = (\<lambda>t. \<not> fst (regexp_MatchString crdbVersionsInvertedRegexp t))"
    by (simp add: isValid_def fun_eq_iff split: prod.splits)
  then show ?thesis
    using getVersions_eq [of data] MatchString_inverted [of t] by simp
qed

theorem getVersions_keeps_exactly_unmatched_tags_witness:
  "getVersions
     \<lparr>Data = [\<lparr>Repositories =
        [\<lparr>Tags = [\<lparr>Name = ''v20.1.1''\<rparr>, \<lparr>Name = ''latest''\<rparr>, \<lparr>Name = ''v19.2.3''\<rparr>]\<rparr>,
         \<lparr>Tags = [\<lparr>Name = ''v21.1.8''\<rparr>, \<lparr>Name = ''v21.1.80''\<rparr>, \<lparr>Name = ''v20.2.3-ubi''\<rparr>]\<rparr>]\<rparr>]\<rparr>
   = [''v20.1.1'', ''v21.1.80'']"
proof -
  let ?data = "\<lparr>Data = [\<lparr>Repositories =
        [\<lparr>Tags = [\<lparr>Name = ''v20.1.1''\<rparr>, \<lparr>Name = ''latest''\<rparr>, \<lparr>Name = ''v19.2.3''\<rparr>]\<rparr>,
         \<lparr>Tags = [\<lparr>Name = ''v21.1.8''\<rparr>, \<lparr>Name = ''v21.1.80''\<rparr>, \<lparr>Name = ''v20.2.3-ubi''\<rparr>]\<rparr>]\<rparr>]\<rparr>"
  have m: "fst (regexp_MatchString crdbVersionsInvertedRegexp t) =
       (prefix ''v19'' t
        \<or> (\<exists>x y. x \<noteq> CHR 0x0A \<and> y \<noteq> CHR 0x0A \<and> t = ''v21'' @ [x] @ ''1'' @ [y] @ ''8'')
        \<or> sublist ''latest'' t
        \<or> suffix ''ubi'' t)" for t
    using getVersions_keeps_exactly_unmatched_tags [of ?data t] by blast
  have g: "getVersions ?data =
     filter (\<lambda>t. \<not> fst (regexp_MatchString crdbVersionsInvertedRegexp t))
       [''v20.1.1'', ''latest'', ''v19.2.3'', ''v21.1.8'', ''v21.1.80'', ''v20.2.3-ubi'']"
    using getVersions_keeps_exactly_unmatched_tags [of ?data "[]"] by simp
  show ?thesis
    unfolding g m by (simp add: sublist_Cons_right suffix_Cons)
qed

section \<open>Properties of sorting and of the manifest\<close>

lemma NewVersion_original: "NewVersion r = Inr v \<Longrightarrow> Original v = r"
  by (auto simp: NewVersion_def Original_def split: option.splits prod.splits if_splits)

lemma parse_versions_Inr:
  "parse_versions rs = Inr vs \<Longrightarrow> list_all2 (\<lambda>r v. NewVersion r = Inr v) rs vs"
  by (induction rs arbitrary: vs) (auto split: sum.splits)


lemma parse_versions_first_error:
  "list_all (\<lambda>x. \<not> isl (NewVersion x)) ok \<Longrightarrow> NewVersion r = Inl err \<Longrightarrow>
   parse_versions (ok @ r # rest) = Inl (CannotParseVersion err)"
  by (induction ok) (auto split: sum.splits)

lemma mset_insert_left: "mset (insert_left lt x ys) = add_mset x (mset ys)"
  by (induction ys) simp_all

lemma mset_insertion_loop:
  "mset (foldl (\<lambda>sorted_part x. insert_left lt x sorted_part) acc xs) = mset acc + mset xs"
  by (induction xs arbitrary: acc) (simp_all add: mset_insert_left)

lemma mset_insertionSort: "mset (insertionSort lt xs) = mset xs"
  by (simp add: insertionSort_def mset_insertion_loop)

lemma originals_of_parsed:
  "list_all2 (\<lambda>r v. NewVersion r = Inr v) rs vs \<Longrightarrow> map Original vs = rs"
  by (induction rule: list_all2_induct) (simp_all add: NewVersion_original)

lemmas semver_eval =
  NewVersion_def versionRegex_FindStringSubmatch_def dot_digits_def dotted_idents_def
  containsOnly_def num_def allowed_def strconv_ParseUint_def decimal_def digit_val_def
  strings_TrimPrefix_def validatePrerelease_def validateMetadata_def Let_def

lemma NewVersion_v2x: "NewVersion ''v2x'' = Inl ErrInvalidSemVer"
  by (simp add: semver_eval)

lemma NewVersion_v20_1_1:
  "NewVersion ''v20.1.1'' =
     Inr \<lparr>major = 20, minor = 1, patch = 1, pre = [], metadata = [], original = ''v20.1.1''\<rparr>"
  by (simp add: semver_eval)

lemma NewVersion_1_5:
  "NewVersion ''1.5'' =
     Inr \<lparr>major = 1, minor = 5, patch = 0, pre = [], metadata = [], original = ''1.5''\<rparr>"
  by (simp add: semver_eval)

lemma NewVersion_v2:
  "NewVersion ''v2'' =
     Inr \<lparr>major = 2, minor = 0, patch = 0, pre = [], metadata = [], original = ''v2''\<rparr>"
  by (simp add: semver_eval)

lemma NewVersion_v2_rc1:
  "NewVersion ''v2.0.0-rc.1'' =
     Inr \<lparr>major = 2, minor = 0, patch = 0, pre = ''rc.1'', metadata = [],
          original = ''v2.0.0-rc.1''\<rparr>"
  by (simp add: semver_eval)

lemma sortVersions_example:
  "sortVersions [''v2'', ''v2.0.0-rc.1'', ''1.5''] = Inr [''1.5'', ''v2.0.0-rc.1'', ''v2'']"
  by (simp add: sortVersions_def NewVersion_1_5 NewVersion_v2 NewVersion_v2_rc1 sort_Sort_def
        insertionSort_def LessThan_def Compare_def compareSegment_def Original_def)

lemma isValid_iff:
  "isValid t =
     (\<not> (prefix ''v19'' t
         \<or> (\<exists>x y. x \<noteq> CHR 0x0A \<and> y \<noteq> CHR 0x0A \<and> t = ''v21'' @ [x] @ ''1'' @ [y] @ ''8'')
         \<or> sublist ''latest'' t
         \<or> suffix ''ubi'' t))"
proof -
  have "isValid t = (\<not> fst (regexp_MatchString crdbVersionsInvertedRegexp t))"
    by (simp add: isValid_def split: prod.splits)
  then show ?thesis
    unfolding MatchString_inverted .
qed

lemma getVersions_example:
  "getVersions
     \<lparr>Data = [\<lparr>Repositories =
        [\<lparr>Tags = [\<lparr>Name = ''v20.1.1''\<rparr>, \<lparr>Name = ''latest''\<rparr>, \<lparr>Name = ''v2x''\<rparr>]\<rparr>]\<rparr>]\<rparr>
   = [''v20.1.1'', ''v2x'']"
  by (simp add: getVersions_eq isValid_iff sublist_Cons_right suffix_Cons)

text \<open>
  C9: when the list holds a string that does not parse (\<open>r\<close>, the first such, after
  the strings \<open>ok\<close> that parse), \<^verbatim>\<open>sortVersions\<close> ends the process with the fatal message
  for that string's error: no list is returned, with or without the entry. In \<^verbatim>\<open>main\<close>,
  when the output file was created and the catalog was fetched and its filtered tags are
  such a list, the only calls made are the creation of the file and the request, and the
  exit is that fatal one: the manifest is not written.
\<close>

theorem unparsable_version_is_fatal:
  assumes "list_all (\<lambda>x. \<not> isl (NewVersion x)) ok" and "NewVersion r = Inl err"
  shows "sortVersions (ok @ r # rest) = Inl (CannotParseVersion err)
       \<and> (create_ok w \<and> response w = Some d \<and> getVersions d = ok @ r # rest
            \<longrightarrow> main yaml w =
                  ([OsCreate crdbVersionsFileName, HttpGet], Some (CannotParseVersion err)))"
proof -
  have fatal: "sortVersions (ok @ r # rest) = Inl (CannotParseVersion err)"
    using parse_versions_first_error [OF assms, of rest] by (simp add: sortVersions_def)
  then show ?thesis
    by (simp add: main_def)
qed

theorem unparsable_version_is_fatal_witness:
  "list_all (\<lambda>x. \<not> isl (NewVersion x)) [''v20.1.1'']
   \<and> NewVersion ''v2x'' = Inl ErrInvalidSemVer
   \<and> sortVersions [''v20.1.1'', ''v2x''] = Inl (CannotParseVersion ErrInvalidSemVer)
   \<and> main (\<lambda>_. [])
        \<lparr>create_ok = True,
         response = Some \<lparr>Data = [\<lparr>Repositories =
           [\<lparr>Tags = [\<lparr>Name = ''v20.1.1''\<rparr>, \<lparr>Name = ''latest''\<rparr>, \<lparr>Name = ''v2x''\<rparr>]\<rparr>]\<rparr>]\<rparr>,
         boilerplate = Some [], write_ok = True\<rparr>
       = ([OsCreate ''crdb-versions.yaml'', HttpGet], Some (CannotParseVersion ErrInvalidSemVer))"
proof -
  let ?d = "\<lparr>Data = [\<lparr>Repositories =
           [\<lparr>Tags = [\<lparr>Name = ''v20.1.1''\<rparr>, \<lparr>Name = ''latest''\<rparr>, \<lparr>Name = ''v2x''\<rparr>]\<rparr>]\<rparr>]\<rparr>"
  let ?w = "\<lparr>create_ok = True, response = Some ?d, boilerplate = Some [], write_ok = True\<rparr>"
  have ok: "list_all (\<lambda>x. \<not> isl (NewVersion x)) [''v20.1.1'']"
    by (simp add: NewVersion_v20_1_1)
  have world: "create_ok ?w \<and> response ?w = Some ?d \<and> getVersions ?d = [''v20.1.1''] @ ''v2x'' # []"
    by (simp add: getVersions_example)
  from unparsable_version_is_fatal [OF ok NewVersion_v2x, of "[]" ?w ?d "\<lambda>_. []"] world
  have "sortVersions ([''v20.1.1''] @ ''v2x'' # []) = Inl (CannotParseVersion ErrInvalidSemVer)
      \<and> main (\<lambda>_. []) ?w =
          ([OsCreate crdbVersionsFileName, HttpGet], Some (CannotParseVersion ErrInvalidSemVer))"
    by blast
  with ok NewVersion_v2x show ?thesis
    by (simp add: crdbVersionsFileName_def)
qed

text \<open>
  C10: when \<^verbatim>\<open>sortVersions\<close> returns, every input string parsed to a version whose
  \<^verbatim>\<open>Original()\<close> is that very string, the output is those originals in the sorted order
  of the versions, and so it has the same elements as the input, each as often.
\<close>

theorem sortVersions_returns_the_input_strings:
  assumes "sortVersions versions = Inr out"
  shows "\<exists>vs. list_all2 (\<lambda>r v. NewVersion r = Inr v \<and> Original v = r) versions vs
            \<and> out = map Original (sort_Sort vs)
            \<and> mset out = mset versions"
proof -
  from assms obtain vs where vs: "parse_versions versions = Inr vs"
    and out: "out = map Original (sort_Sort vs)"
    by (auto simp: sortVersions_def split: sum.splits)
  from parse_versions_Inr [OF vs]
  have parsed: "list_all2 (\<lambda>r v. NewVersion r = Inr v) versions vs" .
  then have both: "list_all2 (\<lambda>r v. NewVersion r = Inr v \<and> Original v = r) versions vs"
    by (rule list_all2_mono) (simp add: NewVersion_original)
  have "mset out = mset (map Original vs)"
    by (simp add: out sort_Sort_def mset_insertionSort)
  also have "\<dots> = mset versions"
    by (simp add: originals_of_parsed [OF parsed])
  finally show ?thesis
    using both out by blast
qed

theorem sortVersions_returns_the_input_strings_witness:
  "sortVersions [''v2'', ''v2.0.0-rc.1'', ''1.5''] = Inr [''1.5'', ''v2.0.0-rc.1'', ''v2'']
   \<and> mset [''1.5'', ''v2.0.0-rc.1'', ''v2''] = mset [''v2'', ''v2.0.0-rc.1'', ''1.5'']"
  using sortVersions_returns_the_input_strings [OF sortVersions_example] sortVersions_example
  by blast


section \<open>The order of versions and the sorted result\<close>































end
